theory Spec2Isabelle
  imports Main "HOL-Library.Sublist" "HOL-Library.AList"
begin

section \<open>Strings\<close>

text \<open>
  \<^verbatim>\<open>s.includes(t)\<close> and \<^verbatim>\<open>s.endsWith(t)\<close> of JavaScript, on strings as character
  lists. Every string of the two scripts is ASCII.
\<close>

fun str_includes :: "string \<Rightarrow> string \<Rightarrow> bool" where
  "str_includes [] t = (t = [])"
| "str_includes (c # cs) t = (prefix t (c # cs) \<or> str_includes cs t)"

definition endsWith :: "string \<Rightarrow> string \<Rightarrow> bool" where
  "endsWith s t = prefix (rev t) (rev s)"

section \<open>The service worker: constants\<close>

definition CACHE_VERSION :: string where
  "CACHE_VERSION = ''v1.2024''"

definition STATIC_CACHE :: string where
  "STATIC_CACHE = ''static-'' @ CACHE_VERSION"

definition DYNAMIC_CACHE :: string where
  "DYNAMIC_CACHE = ''dynamic-'' @ CACHE_VERSION"

definition CRITICAL_CACHE :: string where
  "CRITICAL_CACHE = ''critical-'' @ CACHE_VERSION"

text \<open>\<^verbatim>\<open>CACHE_STRATEGIES.critical\<close>, the only list of \<^verbatim>\<open>CACHE_STRATEGIES\<close> the code reads.\<close>

definition critical :: "string list" where
  "critical =
    [''/'', ''/index.html'', ''/home/index.html'', ''/about/index.html'',
     ''/assessment/index.html'', ''/strategic-assessment-new/index.html'',
     ''/capabilities/index.html'', ''/analytics-dashboard/index.html'']"

definition PRECACHE_URLS :: "string list" where
  "PRECACHE_URLS = critical @ [''/image/Logo oficial.png'']"

definition NETWORK_TIMEOUT :: nat where
  "NETWORK_TIMEOUT = 3000"

section \<open>Responses, requests, the network and the cache storage\<close>

datatype response = Response (status: nat) (body: string)

datatype error = NetworkError | NetworkTimeout | TypeError

text \<open>
  What an \<^verbatim>\<open>async\<close> strategy settles to: a response, the value \<^verbatim>\<open>undefined\<close>, or a
  rejection.
\<close>

datatype result = Returned response | ReturnedUndefined | Thrown error

text \<open>
  A request as the handlers read it: \<^verbatim>\<open>request.method\<close>, \<^verbatim>\<open>request.url\<close>,
  \<^verbatim>\<open>request.destination\<close>, and the \<^verbatim>\<open>protocol\<close>, \<^verbatim>\<open>hostname\<close> and \<^verbatim>\<open>pathname\<close> of
  \<^verbatim>\<open>new URL(request.url)\<close>.
\<close>

record request =
  request_method :: string
  url :: string
  protocol :: string
  hostname :: string
  pathname :: string
  destination :: string

text \<open>
  The network, as seen during one handler: for each URL the time in milliseconds after
  which \<^verbatim>\<open>fetch\<close> settles, and what it settles to (\<open>None\<close>: the promise rejects).
\<close>

type_synonym network = "string \<Rightarrow> nat \<times> response option"

text \<open>
  The state the worker's handlers act on. \<open>caches\<close> is the cache storage, partitions in
  creation order, each a list of (URL, response) entries; \<open>fetch_log\<close> records every
  call of \<^verbatim>\<open>fetch\<close>; \<open>skip_waiting_calls\<close> counts the calls of \<^verbatim>\<open>self.skipWaiting()\<close>;
  \<open>clients_claimed\<close> records \<^verbatim>\<open>self.clients.claim()\<close>; \<open>response_wait\<close> is for how many
  milliseconds the strategy that answered the last request awaited the network before
  it settled (0 when it settled without awaiting a fetch).
\<close>

record sw_state =
  caches :: "(string \<times> (string \<times> response) list) list"
  fetch_log :: "string list"
  skip_waiting_calls :: nat
  clients_claimed :: bool
  response_wait :: nat

definition caches_keys :: "sw_state \<Rightarrow> string list" where
  "caches_keys st = map fst (caches st)"

definition caches_open :: "string \<Rightarrow> sw_state \<Rightarrow> sw_state" where
  "caches_open name st =
     (if name \<in> set (caches_keys st) then st
      else st\<lparr>caches := caches st @ [(name, [])]\<rparr>)"

definition caches_delete :: "string \<Rightarrow> sw_state \<Rightarrow> sw_state" where
  "caches_delete name st = st\<lparr>caches := AList.delete name (caches st)\<rparr>"

definition entries :: "sw_state \<Rightarrow> string \<Rightarrow> (string \<times> response) list" where
  "entries st name = (case map_of (caches st) name of None \<Rightarrow> [] | Some p \<Rightarrow> p)"

definition cache_match :: "sw_state \<Rightarrow> string \<Rightarrow> string \<Rightarrow> response option" where
  "cache_match st name key = map_of (entries st name) key"

text \<open>
  \<^verbatim>\<open>cache.put\<close> is the platform's, not code of this repository. By the Cache interface
  it rejects a partial response, status 206, with a \<^verbatim>\<open>TypeError\<close> and stores nothing;
  any other response is stored under the key, in place of an earlier entry. Its other
  refusals concern what a request or response of this model does not carry (a method
  other than \<^verbatim>\<open>GET\<close>, a URL that is not http(s), a \<^verbatim>\<open>Vary: *\<close> header, a body already
  read).
\<close>

definition put_accepts :: "response \<Rightarrow> bool" where
  "put_accepts r = (status r \<noteq> 206)"

definition cache_put ::
  "string \<Rightarrow> string \<Rightarrow> response \<Rightarrow> sw_state \<Rightarrow> (error + unit) \<times> sw_state" where
  "cache_put name key r st =
     (if put_accepts r
      then (Inr (),
            st\<lparr>caches := AList.update name (AList.update key r (entries st name)) (caches st)\<rparr>)
      else (Inl TypeError, st))"

definition fetch :: "network \<Rightarrow> string \<Rightarrow> sw_state \<Rightarrow> (error + response) \<times> sw_state" where
  "fetch net u st =
     ((case snd (net u) of None \<Rightarrow> Inl NetworkError | Some r \<Rightarrow> Inr r),
      st\<lparr>fetch_log := fetch_log st @ [u]\<rparr>)"

text \<open>
  \<^verbatim>\<open>Promise.race([fetch(request), <reject after timeout>])\<close>: the fetch wins when it
  settles before the timer. \<open>settle_time\<close> is when the race settles, so how long a
  caller that awaits it is suspended.
\<close>

definition settle_time :: "network \<Rightarrow> string \<Rightarrow> nat \<Rightarrow> nat" where
  "settle_time net u timeout = min (fst (net u)) timeout"

definition fetchWithTimeout ::
  "network \<Rightarrow> string \<Rightarrow> nat \<Rightarrow> sw_state \<Rightarrow> (error + response) \<times> sw_state" where
  "fetchWithTimeout net u timeout st =
     (if fst (net u) < timeout then fetch net u st
      else (Inl NetworkTimeout, snd (fetch net u st)))"

section \<open>The three strategies\<close>

text \<open>
  A \<^verbatim>\<open>cache.put\<close> that the source does not await has its outcome dropped: only the
  state it leaves is kept. The state a strategy returns is the one reached when the
  work it started has settled, the fetches it did not await included.
\<close>

definition updateCacheInBackground ::
  "network \<Rightarrow> request \<Rightarrow> string \<Rightarrow> sw_state \<Rightarrow> sw_state" where
  "updateCacheInBackground net req cacheName st =
     (case fetch net (url req) st of
        (Inr r, st1) \<Rightarrow>
          if status r = 200 then snd (cache_put cacheName (url req) r st1) else st1
      | (Inl e, st1) \<Rightarrow> st1)"

definition cacheFirstStrategy ::
  "network \<Rightarrow> request \<Rightarrow> string \<Rightarrow> sw_state \<Rightarrow> result \<times> sw_state" where
  "cacheFirstStrategy net req cacheName st =
     (let st1 = caches_open cacheName st in
      case cache_match st1 cacheName (url req) of
        Some cachedResponse \<Rightarrow>
          (Returned cachedResponse,
           (updateCacheInBackground net req cacheName st1)\<lparr>response_wait := 0\<rparr>)
      | None \<Rightarrow>
          (case fetchWithTimeout net (url req) 5000 st1 of
             (Inr networkResponse, st2) \<Rightarrow>
               (Returned networkResponse,
                (snd (cache_put cacheName (url req) networkResponse st2))
                  \<lparr>response_wait := settle_time net (url req) 5000\<rparr>)
           | (Inl e, st2) \<Rightarrow>
               (Returned (Response 503 ''Offline''),
                st2\<lparr>response_wait := settle_time net (url req) 5000\<rparr>)))"

definition staleWhileRevalidateStrategy ::
  "network \<Rightarrow> request \<Rightarrow> string \<Rightarrow> sw_state \<Rightarrow> result \<times> sw_state" where
  "staleWhileRevalidateStrategy net req cacheName st =
     (let st1 = caches_open cacheName st;
          cachedResponse = cache_match st1 cacheName (url req);
          (networkResponse, st3) =
            (case fetchWithTimeout net (url req) 5000 st1 of
               (Inr r, st2) \<Rightarrow> (Some r, snd (cache_put cacheName (url req) r st2))
             | (Inl e, st2) \<Rightarrow> (cachedResponse, st2))
      in case cachedResponse of
           Some c \<Rightarrow> (Returned c, st3\<lparr>response_wait := 0\<rparr>)
         | None \<Rightarrow>
             (case networkResponse of
                Some r \<Rightarrow> (Returned r, st3\<lparr>response_wait := settle_time net (url req) 5000\<rparr>)
              | None \<Rightarrow>
                  (ReturnedUndefined, st3\<lparr>response_wait := settle_time net (url req) 5000\<rparr>)))"

definition networkFirstStrategy ::
  "network \<Rightarrow> request \<Rightarrow> string \<Rightarrow> sw_state \<Rightarrow> result \<times> sw_state" where
  "networkFirstStrategy net req cacheName st =
     (case fetchWithTimeout net (url req) NETWORK_TIMEOUT st of
        (Inr networkResponse, st1) \<Rightarrow>
          (Returned networkResponse,
           (if status networkResponse = 200
            then snd (cache_put cacheName (url req) networkResponse (caches_open cacheName st1))
            else st1)\<lparr>response_wait := settle_time net (url req) NETWORK_TIMEOUT\<rparr>)
      | (Inl e, st1) \<Rightarrow>
          (let st2 = (caches_open cacheName st1)
                       \<lparr>response_wait := settle_time net (url req) NETWORK_TIMEOUT\<rparr> in
           case cache_match st2 cacheName (url req) of
             Some cachedResponse \<Rightarrow> (Returned cachedResponse, st2)
           | None \<Rightarrow> (Thrown e, st2)))"

section \<open>Classification and dispatch\<close>

text \<open>
  The first condition of \<^verbatim>\<open>handleRequest\<close>:
  \<^verbatim>\<open>CACHE_STRATEGIES.critical.some(path => url.pathname === path || url.pathname.endsWith(path))\<close>.
\<close>

definition isCriticalPath :: "request \<Rightarrow> bool" where
  "isCriticalPath req =
     list_ex (\<lambda>path. pathname req = path \<or> endsWith (pathname req) path) critical"

definition isStaticDestination :: "request \<Rightarrow> bool" where
  "isStaticDestination req =
     (destination req = ''style'' \<or> destination req = ''script'' \<or> destination req = ''image'')"

text \<open>\<^verbatim>\<open>!url.hostname.includes(location.hostname)\<close>; \<open>loc\<close> is \<^verbatim>\<open>location.hostname\<close>.\<close>

definition isExternalHost :: "string \<Rightarrow> request \<Rightarrow> bool" where
  "isExternalHost loc req = (\<not> str_includes (hostname req) loc)"

definition handleRequest ::
  "network \<Rightarrow> string \<Rightarrow> request \<Rightarrow> sw_state \<Rightarrow> result \<times> sw_state" where
  "handleRequest net loc req st =
     (if isCriticalPath req then cacheFirstStrategy net req CRITICAL_CACHE st
      else if isStaticDestination req then staleWhileRevalidateStrategy net req STATIC_CACHE st
      else if isExternalHost loc req then networkFirstStrategy net req DYNAMIC_CACHE st
      else networkFirstStrategy net req DYNAMIC_CACHE st)"

text \<open>The branch of \<^verbatim>\<open>handleRequest\<close> a request takes, as a resource class.\<close>

datatype resource_class = Critical | StaticAsset | External | Dynamic

definition classify :: "string \<Rightarrow> request \<Rightarrow> resource_class" where
  "classify loc req =
     (if isCriticalPath req then Critical
      else if isStaticDestination req then StaticAsset
      else if isExternalHost loc req then External
      else Dynamic)"

text \<open>The fixed table from class to strategy and partition.\<close>

fun dispatch ::
  "resource_class \<Rightarrow> network \<Rightarrow> request \<Rightarrow> sw_state \<Rightarrow> result \<times> sw_state" where
  "dispatch Critical net req st = cacheFirstStrategy net req CRITICAL_CACHE st"
| "dispatch StaticAsset net req st = staleWhileRevalidateStrategy net req STATIC_CACHE st"
| "dispatch External net req st = networkFirstStrategy net req DYNAMIC_CACHE st"
| "dispatch Dynamic net req st = networkFirstStrategy net req DYNAMIC_CACHE st"

text \<open>
  The condition that selects a class, and the classification obtained when the three
  conditions are tried in a given order (\<open>Dynamic\<close> when none holds). The specification
  calls the rule order-independent; \<open>classify_in_order\<close> states what that would mean.
\<close>

fun class_condition :: "string \<Rightarrow> request \<Rightarrow> resource_class \<Rightarrow> bool" where
  "class_condition loc req Critical = isCriticalPath req"
| "class_condition loc req StaticAsset = isStaticDestination req"
| "class_condition loc req External = isExternalHost loc req"
| "class_condition loc req Dynamic = True"

definition classify_in_order :: "resource_class list \<Rightarrow> string \<Rightarrow> request \<Rightarrow> resource_class" where
  "classify_in_order order loc req =
     (case filter (class_condition loc req) order of [] \<Rightarrow> Dynamic | c # _ \<Rightarrow> c)"

text \<open>
  The \<^verbatim>\<open>fetch\<close> listener: \<open>None\<close> when the listener returns without
  \<^verbatim>\<open>event.respondWith\<close>, and the browser handles the request itself.
\<close>

definition fetch_listener ::
  "network \<Rightarrow> string \<Rightarrow> request \<Rightarrow> sw_state \<Rightarrow> (result \<times> sw_state) option" where
  "fetch_listener net loc req st =
     (if request_method req \<noteq> ''GET'' then None
      else if protocol req = ''chrome-extension:'' then None
      else if str_includes (hostname req) ''google-analytics'' then None
      else Some (handleRequest net loc req st))"

section \<open>Batches, install, activate and messages\<close>

text \<open>\<^verbatim>\<open>Promise.all\<close>: fulfilled when every member is, rejected with a member's error otherwise.\<close>

fun promise_all :: "(error + unit) list \<Rightarrow> error + unit" where
  "promise_all [] = Inr ()"
| "promise_all (Inl e # rs) = Inl e"
| "promise_all (Inr u # rs) = promise_all rs"

text \<open>\<^verbatim>\<open>xs.map(f)\<close> for an \<open>f\<close> with effects: the results, and the state after all of them.\<close>

fun map_state :: "('a \<Rightarrow> 's \<Rightarrow> 'b \<times> 's) \<Rightarrow> 'a list \<Rightarrow> 's \<Rightarrow> 'b list \<times> 's" where
  "map_state f [] st = ([], st)"
| "map_state f (x # xs) st =
     (case f x st of (r, st1) \<Rightarrow>
        (case map_state f xs st1 of (rs, st2) \<Rightarrow> (r # rs, st2)))"

text \<open>\<^verbatim>\<open>fetch(url).then(response => cache.put(url, response)).catch(() => {})\<close>\<close>

definition fetch_put_catch ::
  "network \<Rightarrow> string \<Rightarrow> string \<Rightarrow> sw_state \<Rightarrow> (error + unit) \<times> sw_state" where
  "fetch_put_catch net cacheName u st =
     (case fetch net u st of
        (Inr r, st1) \<Rightarrow>
          (case cache_put cacheName u r st1 of
             (Inr ok, st2) \<Rightarrow> (Inr (), st2)
           | (Inl e, st2) \<Rightarrow> (Inr (), st2))
      | (Inl e, st1) \<Rightarrow> (Inr (), st1))"

text \<open>
  \<open>storable\<close>: the fetch of a URL is fulfilled, with a response that \<^verbatim>\<open>cache.put\<close>
  accepts.
\<close>

definition storable :: "network \<Rightarrow> string \<Rightarrow> bool" where
  "storable net u = (case snd (net u) of None \<Rightarrow> False | Some r \<Rightarrow> put_accepts r)"

text \<open>
  \<^verbatim>\<open>cache.addAll(urls)\<close> is the platform's, not code of this repository. By the Cache
  interface it fetches every URL and is all-or-nothing: when one fetch rejects or one
  response has a status outside 200..299 or the status 206, the promise rejects with a
  \<^verbatim>\<open>TypeError\<close> and nothing is stored; otherwise every response is stored.
\<close>

definition response_ok :: "network \<Rightarrow> string \<Rightarrow> bool" where
  "response_ok net u =
     (case snd (net u) of
        None \<Rightarrow> False
      | Some r \<Rightarrow> 200 \<le> status r \<and> status r \<le> 299 \<and> status r \<noteq> 206)"

definition cache_addAll ::
  "network \<Rightarrow> string \<Rightarrow> string list \<Rightarrow> sw_state \<Rightarrow> (error + unit) \<times> sw_state" where
  "cache_addAll net cacheName us st =
     (let st1 = st\<lparr>fetch_log := fetch_log st @ us\<rparr> in
      if list_all (response_ok net) us
      then (Inr (),
            fold (\<lambda>u s. case snd (net u) of
                         None \<Rightarrow> s
                       | Some r \<Rightarrow> snd (cache_put cacheName u r s))
              us st1)
      else (Inl TypeError, st1))"

definition fonts :: "string list" where
  "fonts =
    [''https://fonts.googleapis.com/css2?family=Playfair+Display:wght@400;500;600;700;800;900&display=swap'',
     ''https://fonts.googleapis.com/css2?family=Inter:wght@300;400;500;600;700&display=swap'']"

definition preloadCriticalResources :: "network \<Rightarrow> sw_state \<Rightarrow> (error + unit) \<times> sw_state" where
  "preloadCriticalResources net st =
     (case map_state (fetch_put_catch net STATIC_CACHE) fonts (caches_open STATIC_CACHE st) of
        (rs, st1) \<Rightarrow> (promise_all rs, st1))"

definition criticalPages :: "string list" where
  "criticalPages = [''/about/index.html'', ''/assessment/index.html'']"

definition warmupCache :: "network \<Rightarrow> sw_state \<Rightarrow> (error + unit) \<times> sw_state" where
  "warmupCache net st =
     (case map_state (fetch_put_catch net CRITICAL_CACHE) criticalPages
             (caches_open CRITICAL_CACHE st) of
        (rs, st1) \<Rightarrow> (promise_all rs, st1))"

text \<open>
  The \<^verbatim>\<open>install\<close> listener; the result is what the promise given to
  \<^verbatim>\<open>event.waitUntil\<close> settles to. The three members of the array are all started.
\<close>

definition install :: "network \<Rightarrow> sw_state \<Rightarrow> (error + unit) \<times> sw_state" where
  "install net st =
     (case cache_addAll net CRITICAL_CACHE PRECACHE_URLS (caches_open CRITICAL_CACHE st) of
        (r1, st1) \<Rightarrow>
          (case preloadCriticalResources net st1 of
             (r2, st2) \<Rightarrow>
               (promise_all [r1, r2, Inr ()],
                st2\<lparr>skip_waiting_calls := Suc (skip_waiting_calls st2)\<rparr>)))"

definition stale_names :: "sw_state \<Rightarrow> string list" where
  "stale_names st =
     filter (\<lambda>cacheName. \<not> str_includes cacheName CACHE_VERSION) (caches_keys st)"

definition activate :: "network \<Rightarrow> sw_state \<Rightarrow> (error + unit) \<times> sw_state" where
  "activate net st =
     (let st1 = fold caches_delete (stale_names st) st;
          st2 = st1\<lparr>clients_claimed := True\<rparr>
      in case warmupCache net st2 of
           (r3, st3) \<Rightarrow> (promise_all [Inr (), Inr (), r3], st3))"

definition cachePage :: "network \<Rightarrow> string \<Rightarrow> sw_state \<Rightarrow> (error + unit) \<times> sw_state" where
  "cachePage net u st =
     (case fetch net u (caches_open DYNAMIC_CACHE st) of
        (Inr r, st1) \<Rightarrow>
          (case cache_put DYNAMIC_CACHE u r st1 of
             (Inr ok, st2) \<Rightarrow> (Inr (), st2)
           | (Inl e, st2) \<Rightarrow> (Inr (), st2))
      | (Inl e, st1) \<Rightarrow> (Inr (), st1))"

definition prefetchRoutes ::
  "network \<Rightarrow> string list \<Rightarrow> sw_state \<Rightarrow> (error + unit) \<times> sw_state" where
  "prefetchRoutes net routes st =
     (case map_state (fetch_put_catch net CRITICAL_CACHE) routes
             (caches_open CRITICAL_CACHE st) of
        (rs, st1) \<Rightarrow> (promise_all rs, st1))"

text \<open>
  The payload \<^verbatim>\<open>event.data\<close> of a message: its \<^verbatim>\<open>type\<close>, \<^verbatim>\<open>url\<close> and \<^verbatim>\<open>routes\<close>. \<open>None\<close>
  is a payload that is missing or has no \<^verbatim>\<open>type\<close>. The result of the listener is what
  the promise it starts and drops settles to: \<open>Inl\<close> would be an unhandled rejection.
\<close>

datatype event_data = Data (data_type: string) (data_url: string) (data_routes: "string list")

definition message_listener ::
  "network \<Rightarrow> event_data option \<Rightarrow> sw_state \<Rightarrow> (error + unit) \<times> sw_state" where
  "message_listener net data st =
     (case data of
        None \<Rightarrow> (Inr (), st)
      | Some d \<Rightarrow>
          if data_type d = ''SKIP_WAITING''
          then (Inr (), st\<lparr>skip_waiting_calls := Suc (skip_waiting_calls st)\<rparr>)
          else if data_type d = ''CACHE_PAGE'' then cachePage net (data_url d) st
          else if data_type d = ''PREFETCH_ROUTES'' then prefetchRoutes net (data_routes d) st
          else (Inr (), st))"

section \<open>The client controller: prefetch hints\<close>

datatype link = Link (link_rel: string) (link_href: string)

text \<open>
  The part of \<^verbatim>\<open>UltraPerformanceOptimizer\<close> that prefetching acts on: the set
  \<^verbatim>\<open>this.resourceHints\<close> and the links appended to \<^verbatim>\<open>document.head\<close>.
\<close>

record controller =
  resourceHints :: "string set"
  document_head :: "link list"

text \<open>
  \<open>origin_of\<close> is \<^verbatim>\<open>new URL(href, window.location.origin).origin\<close> of the platform,
  \<open>None\<close> when the constructor throws; \<open>here\<close> is \<^verbatim>\<open>window.location.origin\<close>.
\<close>

definition isInternalLink :: "(string \<Rightarrow> string option) \<Rightarrow> string \<Rightarrow> string \<Rightarrow> bool" where
  "isInternalLink origin_of here h =
     (case origin_of h of None \<Rightarrow> False | Some origin \<Rightarrow> origin = here)"

definition prefetchResource ::
  "(string \<Rightarrow> string option) \<Rightarrow> string \<Rightarrow> string \<Rightarrow> controller \<Rightarrow> controller" where
  "prefetchResource origin_of here h c =
     (if h \<notin> resourceHints c \<and> isInternalLink origin_of here h
      then c\<lparr>document_head := document_head c @ [Link ''prefetch'' h],
             resourceHints := insert h (resourceHints c)\<rparr>
      else c)"

text \<open>
  The \<^verbatim>\<open>mouseover\<close> handler, once the debounce lets it run; the argument is the
  \<^verbatim>\<open>href\<close> of \<^verbatim>\<open>event.target.closest('a')\<close>, \<open>None\<close> when there is no such link.
\<close>

definition mouseover ::
  "(string \<Rightarrow> string option) \<Rightarrow> string \<Rightarrow> string option \<Rightarrow> controller \<Rightarrow> controller" where
  "mouseover origin_of here target c =
     (case target of
        None \<Rightarrow> c
      | Some h \<Rightarrow> if isInternalLink origin_of here h then prefetchResource origin_of here h c else c)"

definition prefetch_hints :: "string \<Rightarrow> controller \<Rightarrow> nat" where
  "prefetch_hints h c =
     length (filter (\<lambda>l. link_rel l = ''prefetch'' \<and> link_href l = h) (document_head c))"

section \<open>Example inputs\<close>

definition fresh :: sw_state where
  "fresh =
     \<lparr>caches = [], fetch_log = [], skip_waiting_calls = 0, clients_claimed = False,
      response_wait = 0\<rparr>"

text \<open>A storage left by an earlier deployment, version \<^verbatim>\<open>v1.2023\<close>.\<close>

definition upgraded :: sw_state where
  "upgraded =
     \<lparr>caches = [(''critical-v1.2023'', [(''/'', Response 200 ''old home'')]),
                (''static-v1.2023'', []), (''dynamic-v1.2023'', [])],
      fetch_log = [], skip_waiting_calls = 0, clients_claimed = False, response_wait = 0\<rparr>"

definition online :: network where
  "online u = (100, Some (Response 200 u))"

definition offline :: network where
  "offline u = (100, None)"

definition slow :: network where
  "slow u = (6000, Some (Response 200 u))"


text \<open>A server that answers every request with a partial response.\<close>

definition partial_content :: network where
  "partial_content u = (100, Some (Response 206 ''partial''))"



definition warm :: sw_state where
  "warm =
     \<lparr>caches =
        [(CRITICAL_CACHE, [(''https://example.org/blog/index.html'', Response 200 ''cached page'')]),
         (STATIC_CACHE, [(''https://example.org/image/logo.png'', Response 200 ''cached logo'')]),
         (DYNAMIC_CACHE, [(''https://example.org/api/items'', Response 200 ''cached items'')])],
      fetch_log = [], skip_waiting_calls = 0, clients_claimed = True, response_wait = 0\<rparr>"

text \<open>Requests of a page served from \<^verbatim>\<open>example.org\<close>.\<close>

definition blog_request :: request where
  "blog_request =
     \<lparr>request_method = ''GET'', url = ''https://example.org/blog/index.html'', protocol = ''https:'',
      hostname = ''example.org'', pathname = ''/blog/index.html'', destination = ''document''\<rparr>"

definition logo_request :: request where
  "logo_request =
     \<lparr>request_method = ''GET'', url = ''https://example.org/image/logo.png'', protocol = ''https:'',
      hostname = ''example.org'', pathname = ''/image/logo.png'', destination = ''image''\<rparr>"

definition api_request :: request where
  "api_request =
     \<lparr>request_method = ''GET'', url = ''https://example.org/api/items'', protocol = ''https:'',
      hostname = ''example.org'', pathname = ''/api/items'', destination = []\<rparr>"

text \<open>A cross-origin request whose path ends in a slash.\<close>

definition cdn_request :: request where
  "cdn_request =
     \<lparr>request_method = ''GET'', url = ''https://cdnjs.cloudflare.com/ajax/libs/'', protocol = ''https:'',
      hostname = ''cdnjs.cloudflare.com'', pathname = ''/ajax/libs/'', destination = []\<rparr>"

text \<open>An origin function for the examples, and a page that has requested no hint yet.\<close>

definition example_origin :: "string \<Rightarrow> string option" where
  "example_origin h =
     (if prefix ''https://example.org/'' h then Some ''https://example.org''
      else if prefix ''https://'' h then Some ''https://elsewhere.test''
      else None)"

definition page0 :: controller where
  "page0 = \<lparr>resourceHints = {}, document_head = []\<rparr>"

section \<open>Facts about the cache storage\<close>

subsection \<open>Lookups after the storage operations\<close>

lemma entries_cache_put:
  "entries (snd (cache_put n k r st)) n' =
     (if put_accepts r \<and> n' = n then AList.update k r (entries st n) else entries st n')"
  by (simp add: entries_def cache_put_def update_conv')

lemma cache_match_cache_put:
  "cache_match (snd (cache_put n k r st)) n' k' =
     (if put_accepts r \<and> n' = n \<and> k' = k then Some r else cache_match st n' k')"
  by (simp add: cache_match_def entries_cache_put update_conv')

lemma caches_keys_cache_put:
  "n \<in> set (caches_keys st) \<Longrightarrow> caches_keys (snd (cache_put n k r st)) = caches_keys st"
  by (simp add: caches_keys_def cache_put_def update_keys)

lemma fetch_log_cache_put: "fetch_log (snd (cache_put n k r st)) = fetch_log st"
  by (simp add: cache_put_def)

lemma skip_cache_put: "skip_waiting_calls (snd (cache_put n k r st)) = skip_waiting_calls st"
  by (simp add: cache_put_def)

lemma claimed_cache_put: "clients_claimed (snd (cache_put n k r st)) = clients_claimed st"
  by (simp add: cache_put_def)

lemma wait_cache_put: "response_wait (snd (cache_put n k r st)) = response_wait st"
  by (simp add: cache_put_def)

lemma cache_match_wait: "cache_match (st\<lparr>response_wait := w\<rparr>) n k = cache_match st n k"
  by (simp add: cache_match_def entries_def)

lemma entries_caches_open: "entries (caches_open n st) n' = entries st n'"
  by (auto simp: entries_def caches_open_def caches_keys_def map_add_def
           split: option.splits dest!: map_of_SomeD intro: rev_image_eqI)

lemma cache_match_caches_open: "cache_match (caches_open n st) n' k = cache_match st n' k"
  by (simp add: cache_match_def entries_caches_open)

lemma caches_keys_caches_open:
  "caches_keys (caches_open n st) = (if n \<in> set (caches_keys st) then caches_keys st else caches_keys st @ [n])"
  by (simp add: caches_open_def caches_keys_def)

lemma fetch_log_caches_open: "fetch_log (caches_open n st) = fetch_log st"
  by (simp add: caches_open_def)

lemma skip_caches_open: "skip_waiting_calls (caches_open n st) = skip_waiting_calls st"
  by (simp add: caches_open_def)

lemma cache_match_fetch:
  "cache_match (snd (fetch net u st)) n k = cache_match st n k"
  by (simp add: fetch_def cache_match_def entries_def)

subsection \<open>Batches of fetch-and-store\<close>

lemma fetch_put_catch_snd:
  "snd (fetch_put_catch net n u st) =
     (case snd (net u) of
        None \<Rightarrow> st\<lparr>fetch_log := fetch_log st @ [u]\<rparr>
      | Some r \<Rightarrow> snd (cache_put n u r (st\<lparr>fetch_log := fetch_log st @ [u]\<rparr>)))"
  by (simp add: fetch_put_catch_def fetch_def split: option.splits prod.splits sum.splits)

lemma fetch_put_catch_match:
  "cache_match (snd (fetch_put_catch net n u st)) n' k =
     (if n' = n \<and> k = u \<and> storable net u then snd (net u) else cache_match st n' k)"
proof (cases "snd (net u)")
  case None
  then show ?thesis
    using cache_match_fetch [of net u st n' k]
    by (simp add: fetch_put_catch_snd fetch_def storable_def)
next
  case (Some r)
  then show ?thesis
    using cache_match_fetch [of net u st n' k]
    by (simp add: fetch_put_catch_snd fetch_def cache_match_cache_put storable_def)
qed

lemma snd_map_state_Cons:
  "snd (map_state f (x # xs) st) = snd (map_state f xs (snd (f x st)))"
  by (simp split: prod.splits)


lemma batch_match:
  "cache_match (snd (map_state (fetch_put_catch net n) us st)) n' k =
     (if n' = n \<and> k \<in> set us \<and> storable net k then snd (net k) else cache_match st n' k)"
proof (induction us arbitrary: st)
  case Nil
  show ?case by simp
next
  case (Cons u us)
  show ?case
    unfolding snd_map_state_Cons
    by (auto simp: Cons.IH fetch_put_catch_match)
qed



lemma fetch_put_catch_keys:
  "n \<in> set (caches_keys st) \<Longrightarrow> caches_keys (snd (fetch_put_catch net n u st)) = caches_keys st"
  by (simp add: fetch_put_catch_snd caches_keys_def cache_put_def update_keys
           split: option.splits)

lemma batch_keys:
  "n \<in> set (caches_keys st) \<Longrightarrow>
   caches_keys (snd (map_state (fetch_put_catch net n) us st)) = caches_keys st"
proof (induction us arbitrary: st)
  case Nil
  show ?case by simp
next
  case (Cons u us)
  show ?case
    unfolding snd_map_state_Cons
    using Cons.prems by (simp add: Cons.IH fetch_put_catch_keys)
qed

lemma fetch_put_catch_other:
  "fetch_log (snd (fetch_put_catch net n u st)) = fetch_log st @ [u] \<and>
   skip_waiting_calls (snd (fetch_put_catch net n u st)) = skip_waiting_calls st \<and>
   clients_claimed (snd (fetch_put_catch net n u st)) = clients_claimed st"
  by (simp add: fetch_put_catch_snd cache_put_def split: option.splits)

lemma batch_other:
  "fetch_log (snd (map_state (fetch_put_catch net n) us st)) = fetch_log st @ us \<and>
   skip_waiting_calls (snd (map_state (fetch_put_catch net n) us st)) = skip_waiting_calls st \<and>
   clients_claimed (snd (map_state (fetch_put_catch net n) us st)) = clients_claimed st"
proof (induction us arbitrary: st)
  case Nil
  show ?case by simp
next
  case (Cons u us)
  show ?case
    unfolding snd_map_state_Cons
    by (simp add: Cons.IH fetch_put_catch_other)
qed


lemma cache_match_log: "cache_match (st\<lparr>fetch_log := l\<rparr>) n k = cache_match st n k"
  by (simp add: cache_match_def entries_def)


subsection \<open>Install and the message commands\<close>









lemma warmup_match:
  "cache_match (snd (warmupCache net st)) n k =
     (if n = CRITICAL_CACHE \<and> k \<in> set criticalPages \<and> storable net k then snd (net k)
      else cache_match st n k)"
  by (auto simp: warmupCache_def split_beta batch_match cache_match_caches_open)





lemma cachePage_result: "fst (cachePage net u st) = Inr ()"
  by (simp add: cachePage_def fetch_def split: option.splits prod.splits sum.splits)



subsection \<open>Pruning\<close>

lemma caches_keys_caches_delete:
  "caches_keys (caches_delete n st) = filter (\<lambda>k. k \<noteq> n) (caches_keys st)"
proof -
  have "filter ((\<noteq>) n) xs = filter (\<lambda>k. k \<noteq> n) xs" for xs :: "string list"
    by (rule filter_cong) auto
  then show ?thesis
    by (simp add: caches_keys_def caches_delete_def delete_keys removeAll_filter_not_eq)
qed

lemma caches_keys_fold_delete:
  "caches_keys (fold caches_delete ns st) = filter (\<lambda>k. k \<notin> set ns) (caches_keys st)"
proof (induction ns arbitrary: st)
  case Nil
  show ?case by simp
next
  case (Cons n ns)
  show ?case
    by (simp add: Cons.IH caches_keys_caches_delete)
qed

lemma cache_match_caches_delete:
  "cache_match (caches_delete m st) n k = (if n = m then None else cache_match st n k)"
  by (simp add: cache_match_def entries_def caches_delete_def delete_conv')

lemma cache_match_fold_delete:
  "cache_match (fold caches_delete ns st) n k = (if n \<in> set ns then None else cache_match st n k)"
proof (induction ns arbitrary: st)
  case Nil
  show ?case by simp
next
  case (Cons m ns)
  show ?case
    by (simp add: Cons.IH cache_match_caches_delete)
qed

lemma keys_after_pruning:
  "caches_keys (fold caches_delete (stale_names st) st) =
     filter (\<lambda>n. str_includes n CACHE_VERSION) (caches_keys st)"
  unfolding caches_keys_fold_delete stale_names_def
  by (rule filter_cong) auto

lemma cache_match_claimed: "cache_match (st\<lparr>clients_claimed := b\<rparr>) n k = cache_match st n k"
  by (simp add: cache_match_def entries_def)

lemma critical_tagged: "str_includes CRITICAL_CACHE CACHE_VERSION"
  by (simp add: CRITICAL_CACHE_def CACHE_VERSION_def)

lemma warmup_keys:
  "caches_keys (snd (warmupCache net st)) =
     (if CRITICAL_CACHE \<in> set (caches_keys st) then caches_keys st
      else caches_keys st @ [CRITICAL_CACHE])"
  by (simp add: warmupCache_def split_beta batch_keys caches_keys_caches_open)

lemma activate_keys:
  "caches_keys (snd (activate net st)) =
     (let ks = filter (\<lambda>n. str_includes n CACHE_VERSION) (caches_keys st)
      in if CRITICAL_CACHE \<in> set ks then ks else ks @ [CRITICAL_CACHE])"
proof -
  have "caches_keys ((fold caches_delete (stale_names st) st)\<lparr>clients_claimed := True\<rparr>) =
      filter (\<lambda>n. str_includes n CACHE_VERSION) (caches_keys st)"
    using keys_after_pruning [of st] by (simp add: caches_keys_def)
  then show ?thesis
    by (simp add: activate_def Let_def split_beta warmup_keys)
qed

lemma activate_match:
  "cache_match (snd (activate net st)) n k =
     (if n = CRITICAL_CACHE \<and> k \<in> set criticalPages \<and> storable net k then snd (net k)
      else if str_includes n CACHE_VERSION then cache_match st n k
      else None)"
proof -
  have absent: "cache_match st n k = None" if "n \<notin> set (caches_keys st)"
    using that
    by (simp add: cache_match_def entries_def caches_keys_def map_of_eq_None_iff [THEN iffD2])
  have "cache_match (fold caches_delete (stale_names st) st) n k =
      (if str_includes n CACHE_VERSION then cache_match st n k else None)"
    using absent by (auto simp: cache_match_fold_delete stale_names_def)
  then show ?thesis
    using critical_tagged
    by (auto simp: activate_def Let_def split_beta warmup_match cache_match_claimed)
qed

subsection \<open>The strategies, case by case\<close>

lemma updateCacheInBackground_match:
  "cache_match (updateCacheInBackground net req n st) n' k =
     (case snd (net (url req)) of
        Some r \<Rightarrow> if status r = 200 \<and> n' = n \<and> k = url req then Some r else cache_match st n' k
      | None \<Rightarrow> cache_match st n' k)"
  by (simp add: updateCacheInBackground_def fetch_def cache_match_cache_put cache_match_log
      put_accepts_def split: option.splits)

lemma updateCacheInBackground_log:
  "fetch_log (updateCacheInBackground net req n st) = fetch_log st @ [url req]"
  by (simp add: updateCacheInBackground_def fetch_def fetch_log_cache_put split: option.splits)

lemma cacheFirst_hit:
  assumes "cache_match st n (url req) = Some c"
  shows "cacheFirstStrategy net req n st =
           (Returned c,
            (updateCacheInBackground net req n (caches_open n st))\<lparr>response_wait := 0\<rparr>)"
  using assms by (simp add: cacheFirstStrategy_def Let_def cache_match_caches_open)

lemma cacheFirst_miss_ok:
  assumes "cache_match st n (url req) = None" "fst (net (url req)) < 5000"
    "snd (net (url req)) = Some r"
  shows "cacheFirstStrategy net req n st =
           (Returned r,
            (snd (cache_put n (url req) r
                    ((caches_open n st)\<lparr>fetch_log := fetch_log st @ [url req]\<rparr>)))
              \<lparr>response_wait := fst (net (url req))\<rparr>)"
  using assms
  by (simp add: cacheFirstStrategy_def Let_def cache_match_caches_open fetchWithTimeout_def
      fetch_def fetch_log_caches_open settle_time_def)

lemma cacheFirst_miss_fail:
  assumes "cache_match st n (url req) = None"
    "snd (net (url req)) = None \<or> 5000 \<le> fst (net (url req))"
  shows "cacheFirstStrategy net req n st =
           (Returned (Response 503 ''Offline''),
            (caches_open n st)\<lparr>fetch_log := fetch_log st @ [url req],
                                response_wait := settle_time net (url req) 5000\<rparr>)"
  using assms
  by (auto simp: cacheFirstStrategy_def Let_def cache_match_caches_open fetchWithTimeout_def
      fetch_def fetch_log_caches_open)

lemma networkFirst_ok:
  assumes "fst (net (url req)) < NETWORK_TIMEOUT" "snd (net (url req)) = Some r"
  shows "networkFirstStrategy net req n st =
           (Returned r,
            (if status r = 200
             then snd (cache_put n (url req) r
                         (caches_open n (st\<lparr>fetch_log := fetch_log st @ [url req]\<rparr>)))
             else st\<lparr>fetch_log := fetch_log st @ [url req]\<rparr>)
              \<lparr>response_wait := fst (net (url req))\<rparr>)"
  using assms
  by (simp add: networkFirstStrategy_def fetchWithTimeout_def fetch_def settle_time_def)

lemma networkFirst_fail:
  assumes "snd (net (url req)) = None \<or> NETWORK_TIMEOUT \<le> fst (net (url req))"
  shows "networkFirstStrategy net req n st =
           (case cache_match st n (url req) of
              Some c \<Rightarrow> Returned c
            | None \<Rightarrow>
                Thrown (if fst (net (url req)) < NETWORK_TIMEOUT then NetworkError
                        else NetworkTimeout),
            (caches_open n (st\<lparr>fetch_log := fetch_log st @ [url req]\<rparr>))
              \<lparr>response_wait := settle_time net (url req) NETWORK_TIMEOUT\<rparr>)"
  using assms
  by (auto simp: networkFirstStrategy_def fetchWithTimeout_def fetch_def Let_def
        cache_match_caches_open cache_match_log cache_match_wait split: option.splits)



subsection \<open>Strings and classification\<close>

lemma endsWith_suffix: "endsWith s t \<longleftrightarrow> suffix t s"
  by (simp add: endsWith_def suffix_to_prefix)

lemma str_includes_sublist: "str_includes s t \<longleftrightarrow> sublist t s"
  by (induction s) (auto simp: sublist_Cons_right)

lemma handleRequest_dispatch:
  "handleRequest net loc req st = dispatch (classify loc req) net req st"
  by (simp add: handleRequest_def classify_def)

lemma classify_source_order:
  "classify loc req = classify_in_order [Critical, StaticAsset, External] loc req"
  by (simp add: classify_def classify_in_order_def)

lemma classify_condition: "class_condition loc req (classify loc req)"
  by (simp add: classify_def)

lemma classify_any_order:
  assumes order: "set order = {Critical, StaticAsset, External}"
    and one: "length (filter (class_condition loc req) [Critical, StaticAsset, External]) \<le> 1"
  shows "classify_in_order order loc req = classify loc req"
proof (cases "filter (class_condition loc req) order")
  case Nil
  then have "\<forall>c \<in> set order. \<not> class_condition loc req c"
    by (simp add: filter_empty_conv)
  then have "\<not> isCriticalPath req" "\<not> isStaticDestination req" "\<not> isExternalHost loc req"
    using order by auto
  then show ?thesis
    using Nil by (simp add: classify_in_order_def classify_def)
next
  case (Cons c cs)
  then have "c \<in> set (filter (class_condition loc req) order)"
    by simp
  then have c: "c \<in> {Critical, StaticAsset, External}" "class_condition loc req c"
    using order by auto
  have "classify loc req = c"
    using c one by (auto simp: classify_def split: if_splits)
  then show ?thesis
    using Cons by (simp add: classify_in_order_def)
qed

lemma classify_order_matters:
  assumes "1 < length (filter (class_condition loc req) [Critical, StaticAsset, External])"
  shows "\<exists>order. set order = {Critical, StaticAsset, External} \<and>
           classify_in_order order loc req \<noteq> classify loc req"
proof (cases "isCriticalPath req")
  case True
  then have other: "isStaticDestination req \<or> isExternalHost loc req"
    using assms by (auto split: if_splits)
  show ?thesis
  proof (cases "isStaticDestination req")
    case True
    have "set [StaticAsset, Critical, External] = {Critical, StaticAsset, External}"
      by auto
    moreover have "classify_in_order [StaticAsset, Critical, External] loc req \<noteq> classify loc req"
      using True \<open>isCriticalPath req\<close> by (simp add: classify_in_order_def classify_def)
    ultimately show ?thesis
      by blast
  next
    case False
    then have ext: "isExternalHost loc req"
      using other by simp
    have "set [External, Critical, StaticAsset] = {Critical, StaticAsset, External}"
      by auto
    moreover have "classify_in_order [External, Critical, StaticAsset] loc req \<noteq> classify loc req"
      using ext \<open>isCriticalPath req\<close> by (simp add: classify_in_order_def classify_def)
    ultimately show ?thesis
      by blast
  qed
next
  case False
  then have both: "isStaticDestination req" "isExternalHost loc req"
    using assms by (auto split: if_splits)
  have "set [External, StaticAsset, Critical] = {Critical, StaticAsset, External}"
    by auto
  moreover have "classify_in_order [External, StaticAsset, Critical] loc req \<noteq> classify loc req"
    using both False by (simp add: classify_in_order_def classify_def)
  ultimately show ?thesis
    by blast
qed

subsection \<open>Calls of skipWaiting\<close>

lemma skip_fold_put:
  "skip_waiting_calls
     (fold (\<lambda>u s. case snd (net u) of None \<Rightarrow> s | Some r \<Rightarrow> snd (cache_put n u r s)) us st) =
   skip_waiting_calls st"
  by (induction us arbitrary: st) (simp_all add: skip_cache_put split: option.splits)

lemma skip_cache_addAll:
  "skip_waiting_calls (snd (cache_addAll net n us st)) = skip_waiting_calls st"
  by (simp add: cache_addAll_def Let_def skip_fold_put)

lemma skip_preload:
  "skip_waiting_calls (snd (preloadCriticalResources net st)) = skip_waiting_calls st"
  by (simp add: preloadCriticalResources_def split_beta batch_other skip_caches_open)

lemma skip_warmup:
  "skip_waiting_calls (snd (warmupCache net st)) = skip_waiting_calls st"
  by (simp add: warmupCache_def split_beta batch_other skip_caches_open)

lemma skip_prefetchRoutes:
  "skip_waiting_calls (snd (prefetchRoutes net routes st)) = skip_waiting_calls st"
  by (simp add: prefetchRoutes_def split_beta batch_other skip_caches_open)

lemma skip_cachePage:
  "skip_waiting_calls (snd (cachePage net u st)) = skip_waiting_calls st"
  by (simp add: cachePage_def fetch_def cache_put_def skip_caches_open
        split: option.splits prod.splits sum.splits)

lemma skip_fold_delete:
  "skip_waiting_calls (fold caches_delete ns st) = skip_waiting_calls st"
  by (induction ns arbitrary: st) (simp_all add: caches_delete_def)

lemma skip_install:
  "skip_waiting_calls (snd (install net st)) = Suc (skip_waiting_calls st)"
  by (simp add: install_def split_beta skip_preload skip_cache_addAll skip_caches_open)

lemma skip_activate:
  "skip_waiting_calls (snd (activate net st)) = skip_waiting_calls st"
  by (simp add: activate_def Let_def split_beta skip_warmup skip_fold_delete)

lemma skip_cacheFirst:
  "skip_waiting_calls (snd (cacheFirstStrategy net req n st)) = skip_waiting_calls st"
  by (simp add: cacheFirstStrategy_def Let_def updateCacheInBackground_def fetchWithTimeout_def
        fetch_def skip_cache_put skip_caches_open split: option.splits)

lemma skip_staleWhileRevalidate:
  "skip_waiting_calls (snd (staleWhileRevalidateStrategy net req n st)) = skip_waiting_calls st"
  by (simp add: staleWhileRevalidateStrategy_def Let_def fetchWithTimeout_def
        fetch_def skip_cache_put skip_caches_open split: option.splits)

lemma skip_networkFirst:
  "skip_waiting_calls (snd (networkFirstStrategy net req n st)) = skip_waiting_calls st"
  by (simp add: networkFirstStrategy_def Let_def fetchWithTimeout_def
        fetch_def skip_cache_put skip_caches_open split: option.splits)

lemma skip_handleRequest:
  "skip_waiting_calls (snd (handleRequest net loc req st)) = skip_waiting_calls st"
  by (simp add: handleRequest_def skip_cacheFirst skip_staleWhileRevalidate skip_networkFirst)

lemma skip_message:
  "skip_waiting_calls (snd (message_listener net data st)) =
     (case data of
        None \<Rightarrow> skip_waiting_calls st
      | Some d \<Rightarrow>
          if data_type d = ''SKIP_WAITING'' then Suc (skip_waiting_calls st)
          else skip_waiting_calls st)"
  by (simp add: message_listener_def skip_cachePage skip_prefetchRoutes split: option.splits)

subsection \<open>Prefetch hints\<close>

lemma prefetchResource_hints:
  "prefetch_hints h (prefetchResource origin_of here h' c) =
     (if h' = h \<and> h \<notin> resourceHints c \<and> isInternalLink origin_of here h
      then Suc (prefetch_hints h c) else prefetch_hints h c)"
  by (auto simp: prefetchResource_def prefetch_hints_def)

lemma prefetchResource_set:
  "resourceHints (prefetchResource origin_of here h' c) =
     (if isInternalLink origin_of here h' then insert h' (resourceHints c) else resourceHints c)"
  by (auto simp: prefetchResource_def)

lemma mouseover_hints:
  "prefetch_hints h (mouseover origin_of here target c) =
     (if target = Some h \<and> h \<notin> resourceHints c \<and> isInternalLink origin_of here h
      then Suc (prefetch_hints h c) else prefetch_hints h c)"
  by (cases target) (auto simp: mouseover_def prefetchResource_hints)

lemma mouseover_set:
  "resourceHints (mouseover origin_of here target c) =
     (case target of
        None \<Rightarrow> resourceHints c
      | Some h' \<Rightarrow>
          if isInternalLink origin_of here h' then insert h' (resourceHints c)
          else resourceHints c)"
  by (cases target) (auto simp: mouseover_def prefetchResource_set)

lemma hovers_hints:
  "prefetch_hints h (fold (mouseover origin_of here) targets c) =
     (if Some h \<in> set targets \<and> h \<notin> resourceHints c \<and> isInternalLink origin_of here h
      then Suc (prefetch_hints h c) else prefetch_hints h c)"
proof (induction targets arbitrary: c)
  case Nil
  show ?case by simp
next
  case (Cons t ts)
  show ?case
    by (cases t) (auto simp: Cons.IH mouseover_hints mouseover_set)
qed

section \<open>Best-effort batches\<close>




section \<open>Activation\<close>

text \<open>
  Claim C2, as amended. Activation deletes every partition whose name does not contain
  the version string \<open>CACHE_VERSION\<close> and keeps, in order, every partition whose name
  contains it; the critical partition of the current version exists afterwards (the
  warmup opens it). So after activation every partition's name contains the version
  string, and a deleted partition answers no lookup. How many partitions exist is not
  fixed: the static and dynamic partitions are there only if they were opened before,
  and any other partition whose name contains the version string stays.
\<close>

theorem activate_prunes_untagged:
  "caches_keys (snd (activate net st)) =
     (let ks = filter (\<lambda>n. str_includes n CACHE_VERSION) (caches_keys st)
      in if CRITICAL_CACHE \<in> set ks then ks else ks @ [CRITICAL_CACHE]) \<and>
   (\<forall>n \<in> set (caches_keys st). \<not> str_includes n CACHE_VERSION \<longrightarrow>
      n \<notin> set (caches_keys (snd (activate net st))) \<and>
      (\<forall>k. cache_match (snd (activate net st)) n k = None)) \<and>
   (\<forall>n \<in> set (caches_keys st). str_includes n CACHE_VERSION \<longrightarrow>
      n \<in> set (caches_keys (snd (activate net st)))) \<and>
   (\<forall>n \<in> set (caches_keys (snd (activate net st))). str_includes n CACHE_VERSION) \<and>
   CRITICAL_CACHE \<in> set (caches_keys (snd (activate net st)))"
proof -
  have tagged: "n \<noteq> CRITICAL_CACHE" if "\<not> str_includes n CACHE_VERSION" for n
    using that critical_tagged by auto
  have gone: "\<forall>n \<in> set (caches_keys st). \<not> str_includes n CACHE_VERSION \<longrightarrow>
      n \<notin> set (caches_keys (snd (activate net st))) \<and>
      (\<forall>k. cache_match (snd (activate net st)) n k = None)"
    using tagged by (auto simp: activate_keys activate_match Let_def)
  have kept: "\<forall>n \<in> set (caches_keys st). str_includes n CACHE_VERSION \<longrightarrow>
      n \<in> set (caches_keys (snd (activate net st)))"
    by (auto simp: activate_keys Let_def)
  have all_tagged: "\<forall>n \<in> set (caches_keys (snd (activate net st))). str_includes n CACHE_VERSION"
    using critical_tagged by (auto simp: activate_keys Let_def)
  have crit: "CRITICAL_CACHE \<in> set (caches_keys (snd (activate net st)))"
    by (auto simp: activate_keys Let_def)
  show ?thesis
    using gone kept all_tagged crit activate_keys [of net st] by blast
qed

theorem activate_prunes_untagged_witness:
  "caches_keys (snd (activate online upgraded)) = [''critical-v1.2024''] \<and>
   cache_match (snd (activate online upgraded)) ''critical-v1.2023'' ''/'' = None \<and>
   caches_keys (snd (activate online warm)) = [CRITICAL_CACHE, STATIC_CACHE, DYNAMIC_CACHE]"
proof -
  have k1: "caches_keys upgraded = [''critical-v1.2023'', ''static-v1.2023'', ''dynamic-v1.2023'']"
    by (simp add: caches_keys_def upgraded_def)
  have k2: "caches_keys warm = [CRITICAL_CACHE, STATIC_CACHE, DYNAMIC_CACHE]"
    by (simp add: caches_keys_def warm_def)
  have v: "CACHE_VERSION = ''v1.2024''" "CRITICAL_CACHE = ''critical-v1.2024''"
    "STATIC_CACHE = ''static-v1.2024''" "DYNAMIC_CACHE = ''dynamic-v1.2024''"
    by (simp_all add: CACHE_VERSION_def CRITICAL_CACHE_def STATIC_CACHE_def DYNAMIC_CACHE_def)
  show ?thesis
    using activate_prunes_untagged [of online upgraded] activate_prunes_untagged [of online warm]
    by (simp add: k1 k2 v)
qed

text \<open>
  The claim as written fails: on a storage left by version \<^verbatim>\<open>v1.2023\<close>, install followed
  by activation leaves two partitions, and no dynamic partition.
\<close>

theorem activate_leaves_two_partitions:
  "caches_keys (snd (activate online (snd (install online upgraded)))) =
     [''critical-v1.2024'', ''static-v1.2024'']"
  by code_simp

section \<open>Cache-first with background refresh\<close>

text \<open>
  Claim C4, as amended. For the cache-first strategy over any partition, on every
  network: when the request is in the partition, the cached response is returned
  without waiting on the network (the strategy settles having awaited no fetch, however
  slow the network or whether it is down), exactly one request, the background
  refresh, is issued, and the refresh overwrites the entry when it is fetched with
  status 200 and leaves it as it was otherwise; when the request is absent, the fetch is
  bounded by the timeout of 5000 ms; if it is fulfilled in time the response is returned,
  and it is stored unless it is a partial response (status 206), which \<^verbatim>\<open>cache.put\<close>
  refuses; if it is rejected or times out, the synthetic response \<^verbatim>\<open>Offline\<close> with
  status 503 is returned, no error is thrown, and nothing is stored.
\<close>

theorem cacheFirst_behaviour:
  "(cache_match st cacheName (url req) = Some c \<longrightarrow>
      fst (cacheFirstStrategy net req cacheName st) = Returned c \<and>
      response_wait (snd (cacheFirstStrategy net req cacheName st)) = 0 \<and>
      fetch_log (snd (cacheFirstStrategy net req cacheName st)) = fetch_log st @ [url req] \<and>
      cache_match (snd (cacheFirstStrategy net req cacheName st)) cacheName (url req) =
        (case snd (net (url req)) of
           Some r \<Rightarrow> if status r = 200 then Some r else Some c
         | None \<Rightarrow> Some c)) \<and>
   (cache_match st cacheName (url req) = None \<longrightarrow>
    fst (net (url req)) < 5000 \<longrightarrow> snd (net (url req)) = Some r \<longrightarrow>
      fst (cacheFirstStrategy net req cacheName st) = Returned r \<and>
      response_wait (snd (cacheFirstStrategy net req cacheName st)) = fst (net (url req)) \<and>
      fetch_log (snd (cacheFirstStrategy net req cacheName st)) = fetch_log st @ [url req] \<and>
      cache_match (snd (cacheFirstStrategy net req cacheName st)) cacheName (url req) =
        (if status r = 206 then None else Some r)) \<and>
   (cache_match st cacheName (url req) = None \<longrightarrow>
    (snd (net (url req)) = None \<or> 5000 \<le> fst (net (url req))) \<longrightarrow>
      fst (cacheFirstStrategy net req cacheName st) = Returned (Response 503 ''Offline'') \<and>
      response_wait (snd (cacheFirstStrategy net req cacheName st)) \<le> 5000 \<and>
      fetch_log (snd (cacheFirstStrategy net req cacheName st)) = fetch_log st @ [url req] \<and>
      cache_match (snd (cacheFirstStrategy net req cacheName st)) cacheName (url req) = None)"
proof (intro conjI impI)
  assume hit: "cache_match st cacheName (url req) = Some c"
  note eq = cacheFirst_hit [where req = req, OF hit]
  show "fst (cacheFirstStrategy net req cacheName st) = Returned c"
    by (simp add: eq)
  show "response_wait (snd (cacheFirstStrategy net req cacheName st)) = 0"
    by (simp add: eq)
  show "fetch_log (snd (cacheFirstStrategy net req cacheName st)) = fetch_log st @ [url req]"
    by (simp add: eq updateCacheInBackground_log fetch_log_caches_open)
  show "cache_match (snd (cacheFirstStrategy net req cacheName st)) cacheName (url req) =
        (case snd (net (url req)) of
           Some r \<Rightarrow> if status r = 200 then Some r else Some c
         | None \<Rightarrow> Some c)"
    using hit
    by (simp add: eq updateCacheInBackground_match cache_match_caches_open cache_match_wait
        split: option.splits)
next
  assume miss: "cache_match st cacheName (url req) = None"
    and fast: "fst (net (url req)) < 5000" and ok: "snd (net (url req)) = Some r"
  note eq = cacheFirst_miss_ok [where net = net and req = req, OF miss fast ok]
  show "fst (cacheFirstStrategy net req cacheName st) = Returned r"
    by (simp add: eq)
  show "response_wait (snd (cacheFirstStrategy net req cacheName st)) = fst (net (url req))"
    by (simp add: eq)
  show "fetch_log (snd (cacheFirstStrategy net req cacheName st)) = fetch_log st @ [url req]"
    by (simp add: eq fetch_log_cache_put)
  show "cache_match (snd (cacheFirstStrategy net req cacheName st)) cacheName (url req) =
      (if status r = 206 then None else Some r)"
    using miss
    by (simp add: eq cache_match_cache_put cache_match_wait cache_match_log
          cache_match_caches_open put_accepts_def)
next
  assume miss: "cache_match st cacheName (url req) = None"
    and bad: "snd (net (url req)) = None \<or> 5000 \<le> fst (net (url req))"
  note eq = cacheFirst_miss_fail [where net = net and req = req, OF miss bad]
  show "fst (cacheFirstStrategy net req cacheName st) = Returned (Response 503 ''Offline'')"
    by (simp add: eq)
  show "response_wait (snd (cacheFirstStrategy net req cacheName st)) \<le> 5000"
    by (simp add: eq settle_time_def)
  show "fetch_log (snd (cacheFirstStrategy net req cacheName st)) = fetch_log st @ [url req]"
    by (simp add: eq)
  have "cache_match
      ((caches_open cacheName st)\<lparr>fetch_log := fetch_log st @ [url req],
         response_wait := settle_time net (url req) 5000\<rparr>) cacheName (url req) =
      cache_match st cacheName (url req)"
    using cache_match_caches_open [of cacheName st cacheName "url req"]
    by (simp add: cache_match_def entries_def)
  then show "cache_match (snd (cacheFirstStrategy net req cacheName st)) cacheName (url req) = None"
    using miss by (simp add: eq)
qed

theorem cacheFirst_behaviour_witness:
  "fst (cacheFirstStrategy slow blog_request CRITICAL_CACHE warm) =
     Returned (Response 200 ''cached page'') \<and>
   response_wait (snd (cacheFirstStrategy slow blog_request CRITICAL_CACHE warm)) = 0 \<and>
   fetch_log (snd (cacheFirstStrategy slow blog_request CRITICAL_CACHE warm)) =
     [''https://example.org/blog/index.html''] \<and>
   fst (cacheFirstStrategy online blog_request CRITICAL_CACHE fresh) =
     Returned (Response 200 ''https://example.org/blog/index.html'') \<and>
   response_wait (snd (cacheFirstStrategy online blog_request CRITICAL_CACHE fresh)) = 100 \<and>
   cache_match (snd (cacheFirstStrategy online blog_request CRITICAL_CACHE fresh))
     CRITICAL_CACHE ''https://example.org/blog/index.html'' =
     Some (Response 200 ''https://example.org/blog/index.html'') \<and>
   fst (cacheFirstStrategy offline blog_request CRITICAL_CACHE fresh) =
     Returned (Response 503 ''Offline'') \<and>
   fst (cacheFirstStrategy slow blog_request CRITICAL_CACHE fresh) =
     Returned (Response 503 ''Offline'')"
proof -
  have hit: "cache_match warm CRITICAL_CACHE (url blog_request) = Some (Response 200 ''cached page'')"
    by (simp add: cache_match_def entries_def warm_def blog_request_def)
  have miss: "cache_match fresh CRITICAL_CACHE (url blog_request) = None"
    by (simp add: cache_match_def entries_def fresh_def)
  have u: "url blog_request = ''https://example.org/blog/index.html''"
    by (simp add: blog_request_def)
  have l: "fetch_log warm = []"
    by (simp add: warm_def)
  show ?thesis
    using cacheFirst_behaviour [of warm CRITICAL_CACHE blog_request "Response 200 ''cached page''" slow]
      cacheFirst_behaviour [of fresh CRITICAL_CACHE blog_request _ online
        "Response 200 ''https://example.org/blog/index.html''"]
      cacheFirst_behaviour [of fresh CRITICAL_CACHE blog_request _ offline]
      cacheFirst_behaviour [of fresh CRITICAL_CACHE blog_request _ slow]
      hit miss
    by (simp add: u l online_def offline_def slow_def)
qed

text \<open>
  The claim as written fails where it says that the fetched result is stored: a
  partial response fetched for an absent request is returned, and the partition still
  has no entry for it.
\<close>

theorem cacheFirst_partial_not_stored:
  "cache_match fresh CRITICAL_CACHE (url blog_request) = None \<and>
   snd (partial_content (url blog_request)) = Some (Response 206 ''partial'') \<and>
   fst (cacheFirstStrategy partial_content blog_request CRITICAL_CACHE fresh) =
     Returned (Response 206 ''partial'') \<and>
   cache_match (snd (cacheFirstStrategy partial_content blog_request CRITICAL_CACHE fresh))
     CRITICAL_CACHE (url blog_request) = None"
  by code_simp

section \<open>Network-first with cache fallback\<close>

text \<open>
  Claim C5. For the network-first strategy over any partition: when the fetch is
  fulfilled within \<open>NETWORK_TIMEOUT\<close> the response is returned, and with status 200 it
  is stored in the partition; when the fetch is rejected or times out, the cached copy is
  returned if there is one, and otherwise the call throws the error of the fetch (a
  network error or the timeout); no synthetic response takes its place.
\<close>

theorem networkFirst_behaviour:
  "(fst (net (url req)) < NETWORK_TIMEOUT \<longrightarrow> snd (net (url req)) = Some r \<longrightarrow>
      fst (networkFirstStrategy net req cacheName st) = Returned r \<and>
      (status r = 200 \<longrightarrow>
         cache_match (snd (networkFirstStrategy net req cacheName st)) cacheName (url req) =
           Some r)) \<and>
   (snd (net (url req)) = None \<or> NETWORK_TIMEOUT \<le> fst (net (url req)) \<longrightarrow>
    cache_match st cacheName (url req) = Some c \<longrightarrow>
      fst (networkFirstStrategy net req cacheName st) = Returned c) \<and>
   (snd (net (url req)) = None \<or> NETWORK_TIMEOUT \<le> fst (net (url req)) \<longrightarrow>
    cache_match st cacheName (url req) = None \<longrightarrow>
      fst (networkFirstStrategy net req cacheName st) =
        Thrown (if fst (net (url req)) < NETWORK_TIMEOUT then NetworkError else NetworkTimeout))"
proof (intro conjI impI)
  assume fast: "fst (net (url req)) < NETWORK_TIMEOUT" and ok: "snd (net (url req)) = Some r"
  note eq = networkFirst_ok [where net = net and req = req, OF fast ok]
  show "fst (networkFirstStrategy net req cacheName st) = Returned r"
    by (simp add: eq)
  assume "status r = 200"
  then show "cache_match (snd (networkFirstStrategy net req cacheName st)) cacheName (url req) =
      Some r"
    by (simp add: eq cache_match_cache_put cache_match_wait put_accepts_def)
next
  assume bad: "snd (net (url req)) = None \<or> NETWORK_TIMEOUT \<le> fst (net (url req))"
    and hit: "cache_match st cacheName (url req) = Some c"
  show "fst (networkFirstStrategy net req cacheName st) = Returned c"
    by (simp add: networkFirst_fail [where net = net and req = req, OF bad] hit)
next
  assume bad: "snd (net (url req)) = None \<or> NETWORK_TIMEOUT \<le> fst (net (url req))"
    and miss: "cache_match st cacheName (url req) = None"
  show "fst (networkFirstStrategy net req cacheName st) =
      Thrown (if fst (net (url req)) < NETWORK_TIMEOUT then NetworkError else NetworkTimeout)"
    by (simp add: networkFirst_fail [where net = net and req = req, OF bad] miss)
qed

theorem networkFirst_behaviour_witness:
  "fst (networkFirstStrategy online api_request DYNAMIC_CACHE fresh) =
     Returned (Response 200 ''https://example.org/api/items'') \<and>
   cache_match (snd (networkFirstStrategy online api_request DYNAMIC_CACHE fresh))
     DYNAMIC_CACHE ''https://example.org/api/items'' =
     Some (Response 200 ''https://example.org/api/items'') \<and>
   fst (networkFirstStrategy offline api_request DYNAMIC_CACHE warm) =
     Returned (Response 200 ''cached items'') \<and>
   fst (networkFirstStrategy slow api_request DYNAMIC_CACHE warm) =
     Returned (Response 200 ''cached items'') \<and>
   fst (networkFirstStrategy offline api_request DYNAMIC_CACHE fresh) = Thrown NetworkError \<and>
   fst (networkFirstStrategy slow api_request DYNAMIC_CACHE fresh) = Thrown NetworkTimeout"
proof -
  have hit: "cache_match warm DYNAMIC_CACHE (url api_request) = Some (Response 200 ''cached items'')"
    by (simp add: cache_match_def entries_def warm_def api_request_def
        DYNAMIC_CACHE_def STATIC_CACHE_def CRITICAL_CACHE_def)
  have miss: "cache_match fresh DYNAMIC_CACHE (url api_request) = None"
    by (simp add: cache_match_def entries_def fresh_def)
  have u: "url api_request = ''https://example.org/api/items''"
    by (simp add: api_request_def)
  show ?thesis
    using networkFirst_behaviour [of online api_request
        "Response 200 ''https://example.org/api/items''" DYNAMIC_CACHE fresh]
      networkFirst_behaviour [of offline api_request _ DYNAMIC_CACHE warm
        "Response 200 ''cached items''"]
      networkFirst_behaviour [of slow api_request _ DYNAMIC_CACHE warm
        "Response 200 ''cached items''"]
      networkFirst_behaviour [of offline api_request _ DYNAMIC_CACHE fresh]
      networkFirst_behaviour [of slow api_request _ DYNAMIC_CACHE fresh]
      hit miss
    by (simp add: u online_def offline_def slow_def NETWORK_TIMEOUT_def)
qed

section \<open>Which stores check the status\<close>




section \<open>Stale-while-revalidate\<close>

text \<open>
  What holds of the stale-while-revalidate strategy: a cached copy is returned whatever
  the network does, without awaiting it; a fetch fulfilled within the timeout overwrites
  the entry, unless the response is a partial one that \<^verbatim>\<open>cache.put\<close> refuses; with no
  cached copy such a fetch's response is what the call returns.
\<close>

lemma staleWhileRevalidate_hit:
  assumes "cache_match st n (url req) = Some c"
  shows "fst (staleWhileRevalidateStrategy net req n st) = Returned c \<and>
         response_wait (snd (staleWhileRevalidateStrategy net req n st)) = 0"
  using assms
  by (simp add: staleWhileRevalidateStrategy_def Let_def cache_match_caches_open split_beta)

lemma staleWhileRevalidate_stores:
  assumes "fst (net (url req)) < 5000" "snd (net (url req)) = Some r" "status r \<noteq> 206"
  shows "cache_match (snd (staleWhileRevalidateStrategy net req n st)) n (url req) = Some r"
  using assms
  by (simp add: staleWhileRevalidateStrategy_def Let_def cache_match_caches_open split_beta
        fetchWithTimeout_def fetch_def cache_match_cache_put cache_match_wait put_accepts_def
        split: option.splits)

lemma staleWhileRevalidate_miss_ok:
  assumes "cache_match st n (url req) = None" "fst (net (url req)) < 5000"
    "snd (net (url req)) = Some r"
  shows "fst (staleWhileRevalidateStrategy net req n st) = Returned r"
  using assms
  by (simp add: staleWhileRevalidateStrategy_def Let_def cache_match_caches_open split_beta
        fetchWithTimeout_def fetch_def)

lemma staleWhileRevalidate_miss_fail:
  assumes "cache_match st n (url req) = None"
    "snd (net (url req)) = None \<or> 5000 \<le> fst (net (url req))"
  shows "fst (staleWhileRevalidateStrategy net req n st) = ReturnedUndefined"
  using assms
  by (auto simp: staleWhileRevalidateStrategy_def Let_def cache_match_caches_open split_beta
        fetchWithTimeout_def fetch_def)

text \<open>
  Claim C3 says that with no cached copy a network failure surfaces as the failure. The
  code does not do that: the handler \<^verbatim>\<open>.catch(() => cachedResponse)\<close> swallows the
  rejection and yields \<open>cachedResponse\<close>, which is \<^verbatim>\<open>undefined\<close> there. On an empty
  storage and a network that is down, the strategy settles to \<^verbatim>\<open>undefined\<close>, where
  \<open>networkFirstStrategy\<close> throws the network error.
\<close>

theorem staleWhileRevalidate_failure_is_undefined:
  "cache_match fresh STATIC_CACHE (url logo_request) = None \<and>
   snd (offline (url logo_request)) = None \<and>
   fst (staleWhileRevalidateStrategy offline logo_request STATIC_CACHE fresh) = ReturnedUndefined \<and>
   fst (networkFirstStrategy offline logo_request STATIC_CACHE fresh) = Thrown NetworkError"
  by code_simp

section \<open>Classification\<close>

text \<open>
  Claim C6, as amended. Every request handed to \<open>handleRequest\<close> gets exactly one
  class, a function of the request and the page's host name alone, and the strategy is
  a function of that class. The class is the first of critical, static-asset, external
  whose condition holds, tried in that order, and dynamic when none holds. The order
  is part of the rule: every order of trying the three conditions gives the class of
  the code if and only if the request meets at most one of them; for a request that
  meets two or more, some order gives another class.
\<close>

theorem classification_first_match:
  "handleRequest net loc req st = dispatch (classify loc req) net req st \<and>
   classify loc req = classify_in_order [Critical, StaticAsset, External] loc req \<and>
   class_condition loc req (classify loc req) \<and>
   (set order = {Critical, StaticAsset, External} \<longrightarrow>
    length (filter (class_condition loc req) [Critical, StaticAsset, External]) \<le> 1 \<longrightarrow>
      classify_in_order order loc req = classify loc req) \<and>
   ((\<forall>order'. set order' = {Critical, StaticAsset, External} \<longrightarrow>
        classify_in_order order' loc req = classify loc req) \<longleftrightarrow>
    length (filter (class_condition loc req) [Critical, StaticAsset, External]) \<le> 1)"
proof -
  have iff: "(\<forall>order'. set order' = {Critical, StaticAsset, External} \<longrightarrow>
        classify_in_order order' loc req = classify loc req) \<longleftrightarrow>
      length (filter (class_condition loc req) [Critical, StaticAsset, External]) \<le> 1"
  proof
    assume all: "\<forall>order'. set order' = {Critical, StaticAsset, External} \<longrightarrow>
        classify_in_order order' loc req = classify loc req"
    show "length (filter (class_condition loc req) [Critical, StaticAsset, External]) \<le> 1"
    proof (rule ccontr)
      assume "\<not> length (filter (class_condition loc req) [Critical, StaticAsset, External]) \<le> 1"
      then have "1 < length (filter (class_condition loc req) [Critical, StaticAsset, External])"
        by simp
      then obtain order' where "set order' = {Critical, StaticAsset, External}"
        "classify_in_order order' loc req \<noteq> classify loc req"
        using classify_order_matters by blast
      then show False
        using all by blast
    qed
  next
    assume "length (filter (class_condition loc req) [Critical, StaticAsset, External]) \<le> 1"
    then show "\<forall>order'. set order' = {Critical, StaticAsset, External} \<longrightarrow>
        classify_in_order order' loc req = classify loc req"
      using classify_any_order by blast
  qed
  show ?thesis
    using handleRequest_dispatch classify_source_order classify_condition classify_any_order iff
    by blast
qed

theorem classification_first_match_witness:
  "classify ''example.org'' logo_request = StaticAsset \<and>
   classify_in_order [External, StaticAsset, Critical] ''example.org'' logo_request = StaticAsset \<and>
   handleRequest online ''example.org'' logo_request fresh =
     staleWhileRevalidateStrategy online logo_request STATIC_CACHE fresh \<and>
   (\<exists>order'. set order' = {Critical, StaticAsset, External} \<and>
      classify_in_order order' ''example.org'' cdn_request \<noteq> classify ''example.org'' cdn_request)"
proof -
  have p: "\<not> isCriticalPath logo_request" "isStaticDestination logo_request"
    "\<not> isExternalHost ''example.org'' logo_request"
    by (simp_all add: isCriticalPath_def isStaticDestination_def isExternalHost_def
          logo_request_def critical_def endsWith_def)
  have q: "isCriticalPath cdn_request" "\<not> isStaticDestination cdn_request"
    "isExternalHost ''example.org'' cdn_request"
    by (simp_all add: isCriticalPath_def isStaticDestination_def isExternalHost_def
          cdn_request_def critical_def endsWith_def)
  have s: "set [External, StaticAsset, Critical] = {Critical, StaticAsset, External}"
    by auto
  have c: "classify ''example.org'' logo_request = StaticAsset"
    using p by (simp add: classify_def)
  have two: "\<not> length (filter (class_condition ''example.org'' cdn_request)
      [Critical, StaticAsset, External]) \<le> 1"
    using q by simp
  have b: "\<exists>order'. set order' = {Critical, StaticAsset, External} \<and>
      classify_in_order order' ''example.org'' cdn_request \<noteq> classify ''example.org'' cdn_request"
    using classification_first_match [of online "''example.org''" cdn_request fresh
        "[External, StaticAsset, Critical]"] two
    by blast
  show ?thesis
    using classification_first_match [of online "''example.org''" logo_request fresh
        "[External, StaticAsset, Critical]"] p s b
    by (simp add: c)
qed

text \<open>
  The rule is not order-independent: a cross-origin request whose path ends in a slash
  meets the critical and the external condition; the code classifies it critical, and
  trying the external condition first would classify it external.
\<close>

theorem classification_depends_on_order:
  "classify ''example.org'' cdn_request = Critical \<and>
   classify_in_order [Critical, StaticAsset, External] ''example.org'' cdn_request = Critical \<and>
   classify_in_order [External, StaticAsset, Critical] ''example.org'' cdn_request = External"
  by (simp add: classify_def classify_in_order_def isCriticalPath_def isStaticDestination_def
        isExternalHost_def cdn_request_def critical_def endsWith_def)

section \<open>Critical paths match by suffix\<close>

text \<open>
  Claim C10. A request whose path ends with an entry of the critical allowlist is
  classified critical and handed to the cache-first strategy over the critical
  partition, whether or not the path is itself in the allowlist; with the method
  \<^verbatim>\<open>GET\<close>, and a URL that the listener does not skip, that is what the \<^verbatim>\<open>fetch\<close>
  listener responds with. Since \<^verbatim>\<open>/\<close> and \<^verbatim>\<open>/index.html\<close> are entries, this covers every
  path ending in a slash or in \<^verbatim>\<open>/index.html\<close>.
\<close>

theorem critical_by_suffix:
  "path \<in> set critical \<longrightarrow> endsWith (pathname req) path \<longrightarrow>
     classify loc req = Critical \<and>
     handleRequest net loc req st = cacheFirstStrategy net req CRITICAL_CACHE st \<and>
     (request_method req = ''GET'' \<longrightarrow> protocol req \<noteq> ''chrome-extension:'' \<longrightarrow>
      \<not> str_includes (hostname req) ''google-analytics'' \<longrightarrow>
        fetch_listener net loc req st = Some (cacheFirstStrategy net req CRITICAL_CACHE st))"
proof (intro impI)
  assume "path \<in> set critical" "endsWith (pathname req) path"
  then have "isCriticalPath req"
    by (auto simp: isCriticalPath_def list_ex_iff)
  then show "classify loc req = Critical \<and>
     handleRequest net loc req st = cacheFirstStrategy net req CRITICAL_CACHE st \<and>
     (request_method req = ''GET'' \<longrightarrow> protocol req \<noteq> ''chrome-extension:'' \<longrightarrow>
      \<not> str_includes (hostname req) ''google-analytics'' \<longrightarrow>
        fetch_listener net loc req st = Some (cacheFirstStrategy net req CRITICAL_CACHE st))"
    by (simp add: classify_def handleRequest_def fetch_listener_def)
qed

theorem critical_by_suffix_witness:
  "pathname blog_request \<notin> set critical \<and>
   hostname blog_request = ''example.org'' \<and>
   endsWith (pathname blog_request) ''/index.html'' \<and>
   fetch_listener online ''example.org'' blog_request fresh =
     Some (cacheFirstStrategy online blog_request CRITICAL_CACHE fresh) \<and>
   endsWith (pathname cdn_request) ''/'' \<and>
   handleRequest online ''example.org'' cdn_request fresh =
     cacheFirstStrategy online cdn_request CRITICAL_CACHE fresh"
proof -
  have a: "''/index.html'' \<in> set critical" "''/'' \<in> set critical"
    by (simp_all add: critical_def)
  have b: "endsWith (pathname blog_request) ''/index.html''"
    "endsWith (pathname cdn_request) ''/''"
    by (simp_all add: endsWith_def blog_request_def cdn_request_def)
  have c: "request_method blog_request = ''GET''" "protocol blog_request \<noteq> ''chrome-extension:''"
    "\<not> str_includes (hostname blog_request) ''google-analytics''"
    "pathname blog_request \<notin> set critical" "hostname blog_request = ''example.org''"
    by (simp_all add: blog_request_def critical_def)
  show ?thesis
    using critical_by_suffix [of "''/index.html''" blog_request "''example.org''" online fresh]
      critical_by_suffix [of "''/''" cdn_request "''example.org''" online fresh]
      a b c
    by simp
qed

section \<open>The skip-waiting transition\<close>

text \<open>
  Claim C7, as amended. The install step itself performs the skip-waiting transition:
  \<^verbatim>\<open>self.skipWaiting()\<close> is a member of the array that \<open>install\<close> waits for, so it is
  called once on every install, whatever the network does. A \<^verbatim>\<open>SKIP_WAITING\<close> message
  performs it as well. No other handler does: not activation, not the \<^verbatim>\<open>fetch\<close>
  listener, not a message of another type or without a payload.
\<close>

theorem skip_waiting_transitions:
  "skip_waiting_calls (snd (install net st)) = Suc (skip_waiting_calls st) \<and>
   skip_waiting_calls (snd (message_listener net (Some (Data ''SKIP_WAITING'' u routes)) st)) =
     Suc (skip_waiting_calls st) \<and>
   (data_type d \<noteq> ''SKIP_WAITING'' \<longrightarrow>
      skip_waiting_calls (snd (message_listener net (Some d) st)) = skip_waiting_calls st) \<and>
   skip_waiting_calls (snd (message_listener net None st)) = skip_waiting_calls st \<and>
   skip_waiting_calls (snd (activate net st)) = skip_waiting_calls st \<and>
   (fetch_listener net loc req st = Some (res, st') \<longrightarrow>
      skip_waiting_calls st' = skip_waiting_calls st)"
proof -
  have f: "fetch_listener net loc req st = Some (res, st') \<longrightarrow>
      skip_waiting_calls st' = skip_waiting_calls st"
    using skip_handleRequest [of net loc req st]
    by (auto simp: fetch_listener_def split: if_splits)
  show ?thesis
    using f by (simp add: skip_install skip_activate skip_message)
qed

theorem skip_waiting_transitions_witness:
  "skip_waiting_calls (snd (install offline fresh)) = 1 \<and>
   skip_waiting_calls (snd (message_listener online (Some (Data ''SKIP_WAITING'' [] [])) fresh)) = 1 \<and>
   skip_waiting_calls (snd (message_listener online (Some (Data ''CACHE_PAGE'' ''/x'' [])) fresh)) = 0 \<and>
   skip_waiting_calls (snd (handleRequest online ''example.org'' blog_request fresh)) = 0"
proof -
  have z: "skip_waiting_calls fresh = 0"
    by (simp add: fresh_def)
  have g: "fetch_listener online ''example.org'' blog_request fresh =
      Some (fst (handleRequest online ''example.org'' blog_request fresh),
            snd (handleRequest online ''example.org'' blog_request fresh))"
    by (simp add: fetch_listener_def blog_request_def)
  show ?thesis
    using skip_waiting_transitions [of offline fresh "[]" "[]" "Data ''CACHE_PAGE'' ''/x'' []"
        "''example.org''" blog_request]
      skip_waiting_transitions [of online fresh "[]" "[]" "Data ''CACHE_PAGE'' ''/x'' []"
        "''example.org''" blog_request
        "fst (handleRequest online ''example.org'' blog_request fresh)"
        "snd (handleRequest online ''example.org'' blog_request fresh)"] g
    by (simp add: z)
qed

text \<open>
  The claim as written fails: with no message received, the transition has been made
  once install is over.
\<close>

theorem install_skips_waiting:
  "skip_waiting_calls fresh = 0 \<and>
   skip_waiting_calls (snd (install online fresh)) = 1 \<and>
   skip_waiting_calls (snd (install offline fresh)) = 1"
  by code_simp

section \<open>Hover prefetch\<close>

text \<open>
  Claim C8. Starting from any state of the page and for any sequence of \<^verbatim>\<open>mouseover\<close>
  events, the number of prefetch hints for a URL grows by at most one; it grows by
  exactly one for an internal URL that is hovered and was not requested before, and
  not at all for a URL in the already-requested set. For a URL that is not
  internal (another origin, or no URL at all) no prefetch hint is added, by the hover
  handler or by a direct call of \<open>prefetchResource\<close>.
\<close>

theorem hover_prefetch_deduplicated:
  "prefetch_hints h (fold (mouseover origin_of here) targets c) \<le> Suc (prefetch_hints h c) \<and>
   (isInternalLink origin_of here h \<longrightarrow> h \<notin> resourceHints c \<longrightarrow> Some h \<in> set targets \<longrightarrow>
      prefetch_hints h (fold (mouseover origin_of here) targets c) = Suc (prefetch_hints h c)) \<and>
   (h \<in> resourceHints c \<longrightarrow>
      prefetch_hints h (fold (mouseover origin_of here) targets c) = prefetch_hints h c) \<and>
   (\<not> isInternalLink origin_of here h \<longrightarrow>
      prefetch_hints h (fold (mouseover origin_of here) targets c) = prefetch_hints h c \<and>
      prefetch_hints h (prefetchResource origin_of here h' c) = prefetch_hints h c)"
  by (simp add: hovers_hints prefetchResource_hints)

theorem hover_prefetch_deduplicated_witness:
  "isInternalLink example_origin ''https://example.org'' ''https://example.org/about/index.html'' \<and>
   \<not> isInternalLink example_origin ''https://example.org'' ''https://github.com/'' \<and>
   prefetch_hints ''https://example.org/about/index.html''
     (fold (mouseover example_origin ''https://example.org'')
        [Some ''https://example.org/about/index.html'', Some ''https://github.com/'', None,
         Some ''https://example.org/about/index.html''] page0) = 1 \<and>
   prefetch_hints ''https://github.com/''
     (fold (mouseover example_origin ''https://example.org'')
        [Some ''https://example.org/about/index.html'', Some ''https://github.com/'', None,
         Some ''https://example.org/about/index.html''] page0) = 0"
proof -
  have i: "isInternalLink example_origin ''https://example.org'' ''https://example.org/about/index.html''"
    "\<not> isInternalLink example_origin ''https://example.org'' ''https://github.com/''"
    by (simp_all add: isInternalLink_def example_origin_def)
  have z: "prefetch_hints h page0 = 0" "resourceHints page0 = {}" for h
    by (simp_all add: prefetch_hints_def page0_def)
  show ?thesis
    using hover_prefetch_deduplicated [of "''https://example.org/about/index.html''"
        example_origin "''https://example.org''"
        "[Some ''https://example.org/about/index.html'', Some ''https://github.com/'', None,
          Some ''https://example.org/about/index.html'']" page0]
      hover_prefetch_deduplicated [of "''https://github.com/''"
        example_origin "''https://example.org''"
        "[Some ''https://example.org/about/index.html'', Some ''https://github.com/'', None,
          Some ''https://example.org/about/index.html'']" page0]
      i
    by (simp add: z)
qed

end
